theory Spec2Isabelle
  imports Complex_Main "HOL-Library.Word"
begin

unbundle bit_operations_syntax

section \<open>App-IRQs/main.cpp: data model\<close>

text \<open>
  The program is one C++ file for the RP2040 under FreeRTOS: an interrupt handler
  (\<open>gpio_cb\<close>), four task functions, a software-timer callback (\<open>timer_fired\<close>), two
  display routines and \<open>main\<close>. Globals become the fields of one record; every call
  into the Pico SDK, the drivers and the kernel is appended, in program order, to the
  field \<open>trace\<close>, so that what a function did (and in which order) can be read off the
  state it returns. Loads and stores of the \<open>volatile\<close> globals \<open>sensor_good\<close>,
  \<open>read_temp\<close> and \<open>irq_hit\<close> are logged as well. The blocks under \<open>#ifdef DEBUG\<close>
  (logging, and a start-up pause in \<open>main\<close>) are left out.
\<close>

type_synonym u8 = "8 word"
type_synonym tick = "32 word"

datatype pin = PICO_DEFAULT_LED_PIN | RED_LED_PIN | ALERT_LED_PIN | ALERT_SENSE_PIN

datatype queue_id = FlipQueue | IrqQueue

datatype call =
    I2cSetup
  | DisplayInit
  | DisplaySetBrightness nat
  | SensorBegin
  | GpioInit pin
  | GpioSetDir pin bool
  | GpioPut pin bool
  | SleepMs nat
  | SetIrqEnabled bool
  | SensorReadTemp
  | SensorClearAlert bool
  | StoreSensorGood bool
  | LoadSensorGood
  | StoreIrqHit bool
  | LoadIrqHit
  | StoreReadTemp real
  | LoadReadTemp
  | DisplayClear
  | SetNumber "32 word" nat bool
  | SetAlpha char nat bool
  | DisplayDraw
  | TaskGetTickCount
  | TaskDelay tick
  | QueueSendToBack queue_id u8 tick
  | QueueSendToBackFromISR queue_id u8
  | QueueReceive queue_id tick
  | TimerCreate string tick bool
  | TaskCreate string
  | QueueCreate nat
  | TaskStartScheduler
  | Printf string

text \<open>
  A FreeRTOS queue of one-byte items: \<open>xQueueCreate(n, sizeof(uint8_t))\<close> gives an empty
  queue of capacity \<open>n\<close>.
\<close>

record queue =
  items :: "u8 list"
  capacity :: nat

definition xQueueCreate :: "nat \<Rightarrow> queue" where
  "xQueueCreate n = \<lparr>items = [], capacity = n\<rparr>"

text \<open>
  A FreeRTOS software timer. \<open>xTimerCreate\<close> returns a timer in the dormant state; the
  kernel makes it active only on \<open>xTimerStart\<close>, \<open>xTimerReset\<close> or \<open>xTimerChangePeriod\<close>
  (and their \<open>FromISR\<close> forms), none of which occurs in main.cpp. An active timer carries
  the tick at which it expires.
\<close>

datatype timer_status = Dormant | Active tick

record timer =
  timer_name :: string
  period_ticks :: tick
  auto_reload :: bool
  status :: timer_status

text \<open>The locals of \<open>led_task_pico\<close>, which live across iterations of its loop.\<close>

record pico_locals =
  pico_led_state :: u8
  count :: int
  state :: bool
  then_tick :: tick

text \<open>
  The constants of main.h and of the FreeRTOS configuration, and the two library
  routines main.cpp calls without defining (\<open>Utils::bcd\<close> and the iostream formatting
  \<open>std::fixed << std::setprecision(2)\<close>), are parameters of the model.
\<close>

record config =
  TEMP_UPPER_LIMIT_C :: int
  SENSOR_TASK_DELAY_TICKS :: tick
  GPIO_LED_ON :: u8
  GPIO_LED_OFF :: u8
  configTICK_RATE_HZ :: nat
  bcd :: "int \<Rightarrow> 32 word"
  format_fixed2 :: "real \<Rightarrow> string"

text \<open>
  The globals, the enable bit of the alert pin's interrupt, the locals that the task
  loops keep across iterations, and the trace. \<open>read_temp\<close> is a \<open>double\<close> in the
  source; the sensor's readings are finite, finite doubles are ordered as the reals
  they denote, and the model compares reals.
\<close>

record sys =
  flip_queue :: queue
  irq_queue :: queue
  alert_timer :: "timer option"
  sensor_good :: bool
  read_temp :: real
  irq_hit :: bool
  irq_enabled :: bool
  pico :: pico_locals
  gpio_passed_value_buffer :: u8
  alert_passed_value_buffer :: u8
  trace :: "call list"

definition emit :: "call list \<Rightarrow> sys \<Rightarrow> sys" where
  "emit cs s = s\<lparr>trace := trace s @ cs\<rparr>"

text \<open>The calls a state transformer adds to the trace.\<close>

definition emitted :: "(sys \<Rightarrow> sys) \<Rightarrow> sys \<Rightarrow> call list" where
  "emitted f s = drop (length (trace s)) (trace (f s))"

definition portMAX_DELAY :: tick where
  "portMAX_DELAY = 0xFFFFFFFF"

definition pdMS_TO_TICKS :: "config \<Rightarrow> nat \<Rightarrow> tick" where
  "pdMS_TO_TICKS cfg ms = of_nat ((ms * configTICK_RATE_HZ cfg) div 1000)"

section \<open>Kernel primitives\<close>

definition get_queue :: "queue_id \<Rightarrow> sys \<Rightarrow> queue" where
  "get_queue q s = (case q of FlipQueue \<Rightarrow> flip_queue s | IrqQueue \<Rightarrow> irq_queue s)"

definition set_queue :: "queue_id \<Rightarrow> queue \<Rightarrow> sys \<Rightarrow> sys" where
  "set_queue q v s =
     (case q of FlipQueue \<Rightarrow> s\<lparr>flip_queue := v\<rparr> | IrqQueue \<Rightarrow> s\<lparr>irq_queue := v\<rparr>)"

text \<open>
  A send that does not wait: the item is appended when the queue has room and is
  dropped when the queue is full. Both sends of main.cpp are of this kind:
  \<open>xQueueSendToBack\<close> is called with a wait of 0 ticks, and \<open>xQueueSendToBackFromISR\<close>
  never waits.
\<close>

definition enqueue :: "u8 \<Rightarrow> queue \<Rightarrow> queue" where
  "enqueue v q = (if length (items q) < capacity q then q\<lparr>items := items q @ [v]\<rparr> else q)"

definition xQueueSendToBack :: "queue_id \<Rightarrow> u8 \<Rightarrow> sys \<Rightarrow> sys" where
  "xQueueSendToBack q v s =
     set_queue q (enqueue v (get_queue q s)) (emit [QueueSendToBack q v 0] s)"

definition xQueueSendToBackFromISR :: "queue_id \<Rightarrow> u8 \<Rightarrow> sys \<Rightarrow> sys" where
  "xQueueSendToBackFromISR q v s =
     set_queue q (enqueue v (get_queue q s)) (emit [QueueSendToBackFromISR q v] s)"

text \<open>
  \<open>xQueueReceive(q, &buf, portMAX_DELAY)\<close>: with an item queued the call returns
  \<open>pdPASS\<close> and the head of the queue; on an empty queue the calling task is parked in
  the call (\<open>None\<close>) and the iteration goes no further (with \<open>INCLUDE_vTaskSuspend\<close>
  set, a wait of \<open>portMAX_DELAY\<close> has no timeout).
\<close>

definition xQueueReceive :: "queue_id \<Rightarrow> sys \<Rightarrow> u8 option \<times> sys" where
  "xQueueReceive q s =
     (let s1 = emit [QueueReceive q portMAX_DELAY] s in
      case items (get_queue q s1) of
        [] \<Rightarrow> (None, s1)
      | v # rest \<Rightarrow> (Some v, set_queue q ((get_queue q s1)\<lparr>items := rest\<rparr>) s1))"

definition xTimerCreate :: "string \<Rightarrow> tick \<Rightarrow> bool \<Rightarrow> timer" where
  "xTimerCreate name period reload =
     \<lparr>timer_name = name, period_ticks = period, auto_reload = reload, status = Dormant\<rparr>"

section \<open>LED and IRQ functions\<close>

definition led_set :: "bool \<Rightarrow> sys \<Rightarrow> sys" where
  "led_set st s = emit [GpioPut PICO_DEFAULT_LED_PIN st] s"

definition led_on :: "sys \<Rightarrow> sys" where
  "led_on s = led_set True s"

definition led_off :: "sys \<Rightarrow> sys" where
  "led_off s = led_set False s"

text \<open>
  \<open>enable_irq(state)\<close> is \<open>gpio_set_irq_enabled_with_callback(ALERT_SENSE_PIN,
  GPIO_IRQ_LEVEL_LOW, state, &gpio_cb)\<close>; \<open>irq_enabled\<close> is the enable bit it sets.
\<close>

definition enable_irq :: "bool \<Rightarrow> sys \<Rightarrow> sys" where
  "enable_irq st s = (emit [SetIrqEnabled st] s)\<lparr>irq_enabled := st\<rparr>"

text \<open>
  The handler's \<open>static bool state = 1\<close> is never written; one byte of it (the queue's
  item size) is sent, that is, the byte 1.
\<close>

definition gpio_cb :: "sys \<Rightarrow> sys" where
  "gpio_cb s = enable_irq False (xQueueSendToBackFromISR FlipQueue 1 s)"

section \<open>The alert task and the timer callback\<close>

definition store_irq_hit :: "bool \<Rightarrow> sys \<Rightarrow> sys" where
  "store_irq_hit b s = (emit [StoreIrqHit b] s)\<lparr>irq_hit := b\<rparr>"

text \<open>One iteration of the loop of \<open>sensor_clear_task\<close>.\<close>

definition sensor_clear_task :: "config \<Rightarrow> sys \<Rightarrow> sys" where
  "sensor_clear_task cfg s =
     (case xQueueReceive IrqQueue s of
        (None, s1) \<Rightarrow> s1
      | (Some v, s1) \<Rightarrow>
          (let s2 = s1\<lparr>alert_passed_value_buffer := v\<rparr> in
           if v = 1 then
             (let s3 = store_irq_hit True s2;
                  s4 = emit [TimerCreate ''ALERT_TIMER'' (pdMS_TO_TICKS cfg 5000) False] s3
              in s4\<lparr>alert_timer :=
                      Some (xTimerCreate ''ALERT_TIMER'' (pdMS_TO_TICKS cfg 5000) False)\<rparr>)
           else s2))"

definition timer_fired :: "config \<Rightarrow> sys \<Rightarrow> sys" where
  "timer_fired cfg s =
     (let s1 = store_irq_hit False s;
          s2 = emit [LoadReadTemp] s1
      in if read_temp s2 < real_of_int (TEMP_UPPER_LIMIT_C cfg) then
           enable_irq True (store_irq_hit False (emit [SensorClearAlert False] s2))
         else s2)"

text \<open>
  The kernel's timer service at tick \<open>now\<close>: the callback of the timer behind
  \<open>alert_timer\<close> runs when that timer is active and its expiry tick has come; a
  one-shot timer is dormant again afterwards. A dormant timer is left alone.
\<close>

definition timer_service :: "config \<Rightarrow> tick \<Rightarrow> sys \<Rightarrow> sys" where
  "timer_service cfg now s =
     (case alert_timer s of
        None \<Rightarrow> s
      | Some t \<Rightarrow>
          (case status t of
             Dormant \<Rightarrow> s
           | Active due \<Rightarrow>
               if due \<le> now
               then timer_fired cfg
                      (s\<lparr>alert_timer :=
                           Some (t\<lparr>status := (if auto_reload t
                                               then Active (due + period_ticks t)
                                               else Dormant)\<rparr>)\<rparr>)
               else s))"

section \<open>Display routines\<close>

text \<open>The driver calls of \<open>display_int(number)\<close>, in order.\<close>

definition display_int_calls :: "config \<Rightarrow> int \<Rightarrow> call list" where
  "display_int_calls cfg number =
     (let number1 = (if number < 0 \<or> number > 9999 then 9999 else number);
          bcd_val = bcd cfg number1
      in [DisplayClear,
          SetNumber (drop_bit 12 bcd_val AND 0x0F) 0 False,
          SetNumber (drop_bit 8 bcd_val AND 0x0F) 1 False,
          SetNumber (drop_bit 4 bcd_val AND 0x0F) 2 False,
          SetNumber (bcd_val AND 0x0F) 3 False,
          DisplayDraw])"

definition display_int :: "config \<Rightarrow> int \<Rightarrow> sys \<Rightarrow> sys" where
  "display_int cfg number s = emit (display_int_calls cfg number) s"

text \<open>
  The loop of \<open>display_tmp\<close> over the formatted text \<open>temp\<close>, returning the
  \<open>set_alpha\<close> calls it makes. Its condition is \<open>i < temp.length() || digit == 3\<close>, so
  the body can run with \<open>i = temp.length()\<close>: there \<open>temp[i]\<close> is the string's
  terminating NUL. A read further out would be undefined behaviour and is the result
  \<open>None\<close>. The counters are \<open>uint32_t\<close> in the source; they stay far below \<open>2 ^ 32\<close>
  (the text of a double has a few hundred characters at most) and are naturals here.
  \<open>set_alpha(current_char, digit)\<close> leaves the dot argument at its default, no dot.
\<close>

function display_tmp_loop :: "string \<Rightarrow> nat \<Rightarrow> nat \<Rightarrow> char \<Rightarrow> call list option" where
  "display_tmp_loop temp i digit previous_char =
     (if i < length temp \<or> digit = 3 then
        (if length temp < i then None
         else
           (let current_char = (if i < length temp then temp ! i else CHR 0x00) in
            if current_char = CHR ''.'' \<and> digit > 0 then
              map_option (\<lambda>cs. SetAlpha previous_char (digit - 1) True # cs)
                (display_tmp_loop temp (i + 1) digit previous_char)
            else
              map_option (\<lambda>cs. SetAlpha current_char digit False # cs)
                (display_tmp_loop temp (i + 1) (digit + 1) current_char)))
      else Some [])"
  by pat_completeness auto
termination
  by (relation "measure (\<lambda>(temp, i, digit, previous_char).
        2 * (length temp + 1 - i) + (if digit = 3 then 1 else 0))")
     (auto split: if_splits)

declare display_tmp_loop.simps [simp del]

definition display_tmp_glyphs :: "string \<Rightarrow> call list option" where
  "display_tmp_glyphs temp =
     map_option (\<lambda>cs. cs @ [SetAlpha CHR ''c'' 3 False, DisplayDraw])
       (display_tmp_loop temp 0 0 (CHR 0x00))"

definition display_tmp_calls :: "config \<Rightarrow> real \<Rightarrow> call list" where
  "display_tmp_calls cfg val =
     (case display_tmp_glyphs (format_fixed2 cfg val) of None \<Rightarrow> [] | Some cs \<Rightarrow> cs)"

definition display_tmp :: "config \<Rightarrow> real \<Rightarrow> sys \<Rightarrow> sys" where
  "display_tmp cfg val s = emit (display_tmp_calls cfg val) s"

section \<open>The render, mirror and sensor tasks\<close>

definition log_debug :: "string \<Rightarrow> sys \<Rightarrow> sys" where
  "log_debug msg s = emit [Printf (''[DEBUG] '' @ msg @ [CHR 0x0A])] s"

text \<open>
  One iteration of the loop of \<open>led_task_pico\<close>; \<open>now\<close> is what \<open>xTaskGetTickCount\<close>
  returns. \<open>TickType_t\<close> is unsigned 32-bit, so \<open>now - then\<close> wraps. \<open>count\<close> is a C
  \<open>int\<close> that stays between -1 and 9999.
\<close>

definition led_task_pico :: "config \<Rightarrow> tick \<Rightarrow> sys \<Rightarrow> sys" where
  "led_task_pico cfg now s =
     (let s0 = emit [TaskGetTickCount] s; p = pico s0 in
      if now - then_tick p \<ge> 500 then
        (let p1 = p\<lparr>then_tick := now\<rparr>;
             p2 = (if state p1 then p1\<lparr>count := count p1 + 1\<rparr> else p1);
             s1 = (if state p1 then display_int cfg (count p2) (led_on s0)
                   else display_tmp cfg (read_temp s0) (emit [LoadReadTemp] (led_off s0)));
             p3 = p2\<lparr>pico_led_state := (if state p2 then GPIO_LED_OFF cfg else GPIO_LED_ON cfg)\<rparr>;
             s2 = xQueueSendToBack FlipQueue (pico_led_state p3) s1;
             p4 = p3\<lparr>state := \<not> state p3\<rparr>;
             p5 = (if count p4 > 9998 then p4\<lparr>count := 0\<rparr> else p4)
         in s2\<lparr>pico := p5\<rparr>)
      else s0)"

text \<open>One iteration of the loop of \<open>led_task_gpio\<close>.\<close>

definition led_task_gpio :: "config \<Rightarrow> sys \<Rightarrow> sys" where
  "led_task_gpio cfg s =
     (case xQueueReceive FlipQueue s of
        (None, s1) \<Rightarrow> s1
      | (Some v, s1) \<Rightarrow>
          (let s2 = s1\<lparr>gpio_passed_value_buffer := v\<rparr>;
               s3 = (if v \<noteq> 0 then log_debug ''GPIO LED FLASH'' s2 else s2);
               s4 = emit [GpioPut RED_LED_PIN (v = GPIO_LED_ON cfg)] s3
           in emit [LoadIrqHit, GpioPut ALERT_LED_PIN (irq_hit s4)] s4))"

text \<open>
  One iteration of the loop of \<open>sensor_read_task\<close>; \<open>val\<close> is what
  \<open>sensor.read_temp()\<close> returns.
\<close>

definition sensor_read_task :: "config \<Rightarrow> real \<Rightarrow> sys \<Rightarrow> sys" where
  "sensor_read_task cfg val s =
     emit [TaskDelay (SENSOR_TASK_DELAY_TICKS cfg)]
       ((emit [SensorReadTemp, StoreReadTemp val] s)\<lparr>read_temp := val\<rparr>)"

section \<open>Setup and main\<close>

text \<open>
  \<open>setup_i2c\<close>; \<open>begin_ok\<close> is what \<open>sensor.begin()\<close> returns.
\<close>

definition setup_i2c :: "bool \<Rightarrow> sys \<Rightarrow> sys" where
  "setup_i2c begin_ok s =
     (let s1 = (emit [I2cSetup, DisplayInit, SensorBegin, StoreSensorGood begin_ok] s)
                 \<lparr>sensor_good := begin_ok\<rparr>;
          s2 = emit [LoadSensorGood] s1
      in if \<not> sensor_good s2
         then emit [Printf (''[ERROR] MCP9808 not present'' @ [CHR 0x0A])] s2
         else s2)"

definition setup_led :: "sys \<Rightarrow> sys" where
  "setup_led s =
     led_off (emit [GpioInit PICO_DEFAULT_LED_PIN, GpioSetDir PICO_DEFAULT_LED_PIN True] s)"

definition setup_gpio :: "sys \<Rightarrow> sys" where
  "setup_gpio s =
     emit [GpioInit ALERT_SENSE_PIN, GpioSetDir ALERT_SENSE_PIN False,
           GpioInit RED_LED_PIN, GpioSetDir RED_LED_PIN True, GpioPut ALERT_LED_PIN False,
           GpioInit ALERT_LED_PIN, GpioSetDir ALERT_LED_PIN True, GpioPut ALERT_LED_PIN False] s"

text \<open>The umbrella routine \<open>setup()\<close> of the source.\<close>

definition setup_hardware :: "bool \<Rightarrow> sys \<Rightarrow> sys" where
  "setup_hardware begin_ok s = setup_gpio (setup_led (setup_i2c begin_ok s))"

text \<open>
  The globals as the C++ initialisers leave them. The two queue handles are \<open>NULL\<close>
  until \<open>main\<close> creates the queues; nothing modelled here touches a queue before that,
  and the handles are shown as empty queues of capacity 0 until then.
\<close>

definition boot :: sys where
  "boot = \<lparr>flip_queue = xQueueCreate 0, irq_queue = xQueueCreate 0, alert_timer = None,
           sensor_good = False, read_temp = 0, irq_hit = False, irq_enabled = False,
           pico = \<lparr>pico_led_state = 0, count = - 1, state = True, then_tick = 0\<rparr>,
           gpio_passed_value_buffer = 0, alert_passed_value_buffer = 0, trace = []\<rparr>"

text \<open>The fallback loop of \<open>main\<close>: \<open>uint8_t count = 5; while (count > 0) ...\<close>.\<close>

function blink :: "u8 \<Rightarrow> sys \<Rightarrow> sys" where
  "blink cnt s =
     (if cnt > 0
      then blink (cnt - 1) (emit [SleepMs 100] (led_off (emit [SleepMs 100] (led_on s))))
      else s)"
  by pat_completeness auto
termination
  by (relation "measure (\<lambda>(cnt, s). unat cnt)")
     (auto simp: unat_minus_one word_greater_zero_iff unat_gt_0)

declare blink.simps [simp del]

datatype outcome = SchedulerRunning | IdleLoop

definition pdPASS :: int where
  "pdPASS = 1"

text \<open>
  \<open>main\<close>, from \<open>setup()\<close> to the point where it either hands over to the scheduler or
  enters its final \<open>while (true)\<close>. The four status arguments are what the four
  \<open>xTaskCreate\<close> calls return (\<open>BaseType_t\<close>).
\<close>

definition main :: "config \<Rightarrow> bool \<Rightarrow> int \<Rightarrow> int \<Rightarrow> int \<Rightarrow> int \<Rightarrow> outcome \<times> sys" where
  "main cfg begin_ok pico_task_status gpio_task_status sens_task_status alert_task_status =
     (let s1 = emit [DisplaySetBrightness 1] (setup_hardware begin_ok boot);
          s1a = emit [LoadSensorGood] s1;
          s2 = (if sensor_good s1a then enable_irq True s1a else s1a);
          s2a = emit [TaskCreate ''PICO_LED_TASK'', TaskCreate ''GPIO_LED_TASK'',
                      TaskCreate ''SENSOR_TASK'', TaskCreate ''ALERT_TASK'',
                      QueueCreate 4, QueueCreate 1] s2;
          s3 = s2a\<lparr>flip_queue := xQueueCreate 4, irq_queue := xQueueCreate 1\<rparr>
      in if pico_task_status = pdPASS \<or> gpio_task_status = pdPASS \<or> sens_task_status = pdPASS
         then (SchedulerRunning, emit [TaskStartScheduler] s3)
         else (IdleLoop, blink 5 s3))"

section \<open>The running system\<close>

text \<open>
  Once the scheduler runs, the system moves by one of these events: the interrupt
  handler is invoked, one of the four task loops runs one iteration, or the timer
  callback is invoked.
\<close>

datatype event =
    Interrupt
  | PicoLoop tick
  | GpioLoop
  | SensorLoop real
  | AlertLoop
  | TimerCallback

fun step :: "config \<Rightarrow> event \<Rightarrow> sys \<Rightarrow> sys" where
  "step cfg Interrupt s = gpio_cb s"
| "step cfg (PicoLoop now) s = led_task_pico cfg now s"
| "step cfg GpioLoop s = led_task_gpio cfg s"
| "step cfg (SensorLoop val) s = sensor_read_task cfg val s"
| "step cfg AlertLoop s = sensor_clear_task cfg s"
| "step cfg TimerCallback s = timer_fired cfg s"

text \<open>The hardware invokes the handler only while the pin's interrupt is enabled.\<close>

fun possible :: "event \<Rightarrow> sys \<Rightarrow> bool" where
  "possible Interrupt s = irq_enabled s"
| "possible e s = True"

inductive reachable :: "config \<Rightarrow> sys \<Rightarrow> bool" for cfg :: config where
  start: "main cfg begin_ok a b c d = (SchedulerRunning, s) \<Longrightarrow> reachable cfg s"
| move: "reachable cfg s \<Longrightarrow> possible e s \<Longrightarrow> reachable cfg (step cfg e s)"

section \<open>Observations on traces\<close>

text \<open>The display position a \<open>set_alpha\<close> call writes to.\<close>

fun alpha_position :: "call \<Rightarrow> nat option" where
  "alpha_position (SetAlpha ch pos dot) = Some pos"
| "alpha_position c = None"

text \<open>
  The characters of the formatted text that take a display position of their own in
  \<open>display_tmp\<close>: the first character, and every later character that is not a point
  (a later point is drawn as the dot of the position before it).
\<close>

definition glyph_chars :: "string \<Rightarrow> string" where
  "glyph_chars temp =
     (case temp of [] \<Rightarrow> [] | c # cs \<Rightarrow> c # filter (\<lambda>x. x \<noteq> CHR ''.'') cs)"

text \<open>
  Whether a kernel call, made in state \<open>s\<close>, takes the calling task off the processor.
  A queue receive with a non-zero wait suspends the task only when the queue is empty;
  with an item queued it returns at once and the task runs on. \<open>vTaskDelay\<close> always
  enters the scheduler: it suspends the task for a non-zero number of ticks and, with
  0 ticks, yields. A tick-count read and a send with a wait of 0 ticks return at once.
  In the loops of \<open>led_task_gpio\<close> and \<open>sensor_clear_task\<close> the receive is the first
  call of an iteration, so the state it is made in is the state the iteration starts in.
\<close>

fun gives_up_processor :: "sys \<Rightarrow> call \<Rightarrow> bool" where
  "gives_up_processor s (QueueReceive q wait) = (wait \<noteq> 0 \<and> items (get_queue q s) = [])"
| "gives_up_processor s (TaskDelay ticks) = True"
| "gives_up_processor s c = False"


text \<open>
  An iteration of the render task's loop taken exactly 500 ticks after the previous
  phase, so that the body of its \<open>if\<close> runs.
\<close>

definition phase :: "config \<Rightarrow> sys \<Rightarrow> sys" where
  "phase cfg s = led_task_pico cfg (then_tick (pico s) + 500) s"

section \<open>An example configuration\<close>

text \<open>
  Modelled from the spec: main.h, the FreeRTOS configuration and \<open>Utils::bcd\<close> are not
  among the sources. The spec's scenarios use a threshold of 24 degrees and a debounce
  delay of 5000 ms, and name the two flash tokens RAISE and LOWER; the values below
  (tokens 1 and 0, a 1 kHz tick, a sensor period of 20 ticks, packed binary-coded
  decimal, and text with two decimal places, rounded to the nearest hundredth, ties to
  even) fill
  the parameters of the model so that it can be run on concrete inputs.
\<close>

definition digit_char :: "nat \<Rightarrow> char" where
  "digit_char d = ''0123456789'' ! d"

fun decimal :: "nat \<Rightarrow> string" where
  "decimal n = (if n < 10 then [digit_char n] else decimal (n div 10) @ [digit_char (n mod 10)])"

declare decimal.simps [simp del]

definition fixed2 :: "bool \<Rightarrow> nat \<Rightarrow> string" where
  "fixed2 neg h =
     (if neg then ''-'' else []) @ decimal (h div 100) @ ''.'' @
     [digit_char ((h div 10) mod 10), digit_char (h mod 10)]"

text \<open>
  Rounding to the nearest integer, an exact tie going to the even neighbour, as the C
  library rounds the exact value of a double when it prints it.
\<close>

definition round_half_even :: "real \<Rightarrow> int" where
  "round_half_even x =
     (let f = \<lfloor>x\<rfloor> in
      if x - of_int f < 1 / 2 then f
      else if 1 / 2 < x - of_int f then f + 1
      else if even f then f else f + 1)"

text \<open>
  The text of \<open>v\<close> with two decimal places; a negative value keeps its sign even when it
  rounds to zero (-0.001 is shown as -0.00). The reals have no negative zero, which the
  source would show as -0.00.
\<close>

definition example_format :: "real \<Rightarrow> string" where
  "example_format v = fixed2 (v < 0) (nat (round_half_even (\<bar>v\<bar> * 100)))"

definition example_bcd :: "int \<Rightarrow> 32 word" where
  "example_bcd n =
     of_int (((n div 1000) mod 10) * 4096 + ((n div 100) mod 10) * 256 +
             ((n div 10) mod 10) * 16 + n mod 10)"

definition example_config :: config where
  "example_config =
     \<lparr>TEMP_UPPER_LIMIT_C = 24, SENSOR_TASK_DELAY_TICKS = 20,
      GPIO_LED_ON = 1, GPIO_LED_OFF = 0, configTICK_RATE_HZ = 1000,
      bcd = example_bcd, format_fixed2 = example_format\<rparr>"

text \<open>
  The state in which the scheduler starts when the sensor answered and all four tasks
  were created.
\<close>

definition example_start :: sys where
  "example_start = snd (main example_config True pdPASS pdPASS pdPASS pdPASS)"

section \<open>Basic facts\<close>

lemmas prims = emit_def get_queue_def set_queue_def enqueue_def
  xQueueSendToBack_def xQueueSendToBackFromISR_def xQueueReceive_def xTimerCreate_def
  led_set_def led_on_def led_off_def enable_irq_def store_irq_hit_def

lemmas tasks = gpio_cb_def timer_fired_def led_task_pico_def led_task_gpio_def
  sensor_read_task_def sensor_clear_task_def display_int_def display_tmp_def log_debug_def

lemmas startup = main_def pdPASS_def setup_hardware_def setup_gpio_def setup_led_def
  setup_i2c_def boot_def xQueueCreate_def

lemmas example = example_start_def example_config_def

lemma emitted_emit: "emitted (emit cs) s = cs"
  by (simp add: emitted_def emit_def)

text \<open>
  The loop of \<open>display_tmp\<close> never reads past the terminating NUL of the text: started
  inside the text, it always returns its list of calls.
\<close>

lemma display_tmp_loop_defined:
  "i \<le> length temp \<Longrightarrow> display_tmp_loop temp i digit pc \<noteq> None"
proof (induction temp i digit pc rule: display_tmp_loop.induct)
  case (1 temp i digit previous_char)
  have past: "display_tmp_loop temp (Suc (length temp)) 4 c = Some []" for c
    by (subst display_tmp_loop.simps) simp
  show ?case
  proof (cases "i < length temp")
    case True
    with "1.IH" show ?thesis
      by (subst display_tmp_loop.simps) (simp add: Let_def)
  next
    case False
    with "1.prems" have "i = length temp" by simp
    then show ?thesis
      by (subst display_tmp_loop.simps) (simp add: Let_def past)
  qed
qed

lemma display_tmp_loop_alpha:
  "display_tmp_loop temp i digit pc = Some cs \<Longrightarrow> c \<in> set cs \<Longrightarrow> alpha_position c \<noteq> None"
proof (induction temp i digit pc arbitrary: cs rule: display_tmp_loop.induct)
  case (1 temp i digit previous_char)
  show ?case
    using "1.prems" "1.IH"
    by (subst (asm) display_tmp_loop.simps) (auto simp: Let_def split: if_splits)
qed

lemma display_tmp_calls_kind:
  "c \<in> set (display_tmp_calls cfg val) \<Longrightarrow> alpha_position c \<noteq> None \<or> c = DisplayDraw"
  by (auto simp: display_tmp_calls_def display_tmp_glyphs_def split: option.splits
           dest: display_tmp_loop_alpha display_tmp_loop_alpha [OF sym])

lemma display_tmp_calls_no_irq: "SetIrqEnabled b \<notin> set (display_tmp_calls cfg val)"
  using display_tmp_calls_kind [of "SetIrqEnabled b" cfg val] by auto

lemma display_tmp_calls_no_yield:
  "c \<in> set (display_tmp_calls cfg val) \<Longrightarrow> \<not> gives_up_processor t c"
  using display_tmp_calls_kind [of c cfg val] by (cases c) auto

lemma display_int_calls_no_irq: "SetIrqEnabled b \<notin> set (display_int_calls cfg n)"
  by (simp add: display_int_calls_def Let_def)

lemma display_int_calls_no_yield:
  "c \<in> set (display_int_calls cfg n) \<Longrightarrow> \<not> gives_up_processor t c"
  by (auto simp: display_int_calls_def Let_def)

text \<open>
  Nothing in main.cpp sends on \<open>irq_queue\<close>: the handler and the render task both send
  on \<open>flip_queue\<close>. So in the running system \<open>irq_queue\<close> stays empty, the alert task
  stays parked in its receive, and \<open>irq_hit\<close> is never set.
\<close>

lemma reachable_quiet:
  "reachable cfg s \<Longrightarrow> items (irq_queue s) = [] \<and> \<not> irq_hit s"
proof (induction rule: reachable.induct)
  case (start begin_ok a b c d s)
  then show ?case
    by (auto simp: startup prims Let_def split: if_splits)
next
  case (move s e)
  then show ?case
    by (cases e) (auto simp: tasks prims Let_def split: list.splits)
qed

section \<open>The interrupt handler (C1)\<close>

text \<open>
  C1 says that the byte the interrupt handler sends goes onto the capacity-1 Alert Queue,
  the queue the alert task receives from (\<open>irq_queue\<close>). The source does otherwise:
  \<open>gpio_cb\<close> calls \<open>xQueueSendToBackFromISR(flip_queue, ...)\<close>, so for every state the
  byte 1 is offered to \<open>flip_queue\<close> (the capacity-4 queue read by \<open>led_task_gpio\<close>),
  \<open>irq_queue\<close> is left exactly as it was, and the interrupt is then disabled.
\<close>

theorem gpio_cb_sends_to_flip_queue:
  "irq_queue (gpio_cb s) = irq_queue s \<and>
   flip_queue (gpio_cb s) = enqueue 1 (flip_queue s) \<and>
   emitted gpio_cb s = [QueueSendToBackFromISR FlipQueue 1, SetIrqEnabled False]"
  by (simp add: gpio_cb_def emitted_def prims)

theorem gpio_cb_sends_to_flip_queue_witness:
  "items (irq_queue (gpio_cb example_start)) = [] \<and>
   items (flip_queue (gpio_cb example_start)) = [1]"
  using gpio_cb_sends_to_flip_queue [of example_start]
  by (simp add: example_start_def example_config_def startup prims Let_def)

section \<open>The alert task (C2)\<close>

text \<open>
  C2 says that on receiving the token 1 the alert task sets \<open>irq_hit\<close> and arms a
  one-shot timer that fires once after about 5000 ms. The first half holds. For the
  second, the task only calls \<open>xTimerCreate\<close> (one-shot, period
  \<open>pdMS_TO_TICKS(5000)\<close>, callback \<open>timer_fired\<close>) and never starts the timer it gets:
  the timer is dormant, and the kernel's timer service leaves a dormant timer alone at
  every tick, so the callback is not run.
\<close>

theorem alert_task_creates_dormant_timer:
  "items (irq_queue s) = 1 # rest \<Longrightarrow>
   irq_hit (sensor_clear_task cfg s) \<and>
   alert_timer (sensor_clear_task cfg s) =
     Some \<lparr>timer_name = ''ALERT_TIMER'', period_ticks = pdMS_TO_TICKS cfg 5000,
           auto_reload = False, status = Dormant\<rparr> \<and>
   emitted (sensor_clear_task cfg) s =
     [QueueReceive IrqQueue portMAX_DELAY, StoreIrqHit True,
      TimerCreate ''ALERT_TIMER'' (pdMS_TO_TICKS cfg 5000) False] \<and>
   timer_service cfg now (sensor_clear_task cfg s) = sensor_clear_task cfg s"
  by (simp add: sensor_clear_task_def timer_service_def emitted_def prims Let_def)

theorem alert_task_creates_dormant_timer_witness:
  "irq_hit (sensor_clear_task example_config
      (example_start\<lparr>irq_queue := \<lparr>items = [1], capacity = 1\<rparr>\<rparr>)) \<and>
   timer_service example_config 5000 (sensor_clear_task example_config
      (example_start\<lparr>irq_queue := \<lparr>items = [1], capacity = 1\<rparr>\<rparr>)) =
   sensor_clear_task example_config
      (example_start\<lparr>irq_queue := \<lparr>items = [1], capacity = 1\<rparr>\<rparr>)"
  using alert_task_creates_dormant_timer [of
          "example_start\<lparr>irq_queue := \<lparr>items = [1], capacity = 1\<rparr>\<rparr>" "[]" example_config 5000]
  by simp

section \<open>The timer callback (C3)\<close>

text \<open>
  C3: \<open>timer_fired\<close> first stores \<open>false\<close> to \<open>irq_hit\<close>, then reads \<open>read_temp\<close>. Below
  the threshold it tells the sensor to clear its alert, stores \<open>false\<close> to \<open>irq_hit\<close>
  again and enables the interrupt; at or above the threshold it does nothing more:
  \<open>irq_hit\<close> is false, the interrupt enable bit and everything else are as they were.
  The trace shows the order of the calls.
\<close>

theorem timer_fired_clears_then_checks:
  "timer_fired cfg s =
     (if read_temp s < real_of_int (TEMP_UPPER_LIMIT_C cfg)
      then s\<lparr>irq_hit := False, irq_enabled := True,
             trace := trace s @ [StoreIrqHit False, LoadReadTemp, SensorClearAlert False,
                                 StoreIrqHit False, SetIrqEnabled True]\<rparr>
      else s\<lparr>irq_hit := False, trace := trace s @ [StoreIrqHit False, LoadReadTemp]\<rparr>)"
  by (simp add: timer_fired_def prims Let_def)

theorem timer_fired_clears_then_checks_witness:
  "irq_enabled (timer_fired example_config
      (example_start\<lparr>read_temp := 20, irq_hit := True, irq_enabled := False\<rparr>)) \<and>
   \<not> irq_hit (timer_fired example_config
      (example_start\<lparr>read_temp := 20, irq_hit := True, irq_enabled := False\<rparr>)) \<and>
   \<not> irq_enabled (timer_fired example_config
      (example_start\<lparr>read_temp := 30, irq_hit := True, irq_enabled := False\<rparr>)) \<and>
   \<not> irq_hit (timer_fired example_config
      (example_start\<lparr>read_temp := 30, irq_hit := True, irq_enabled := False\<rparr>))"
  using timer_fired_clears_then_checks [of example_config
          "example_start\<lparr>read_temp := 20, irq_hit := True, irq_enabled := False\<rparr>"]
        timer_fired_clears_then_checks [of example_config
          "example_start\<lparr>read_temp := 30, irq_hit := True, irq_enabled := False\<rparr>"]
  by (simp add: example_config_def)

section \<open>Re-arming the interrupt (C4)\<close>

text \<open>
  C4: once the scheduler runs, a step of the system calls \<open>enable_irq(true)\<close> if and
  only if it is the timer callback running with \<open>read_temp\<close> below the threshold; the
  enable bit goes from off to on in exactly that case; and the interrupt handler leaves
  the interrupt disabled.
\<close>

theorem irq_rearmed_only_by_timer_below_threshold:
  "(SetIrqEnabled True \<in> set (emitted (step cfg e) s) \<longleftrightarrow>
      e = TimerCallback \<and> read_temp s < real_of_int (TEMP_UPPER_LIMIT_C cfg)) \<and>
   (\<not> irq_enabled s \<and> irq_enabled (step cfg e s) \<longleftrightarrow>
      \<not> irq_enabled s \<and> e = TimerCallback \<and> read_temp s < real_of_int (TEMP_UPPER_LIMIT_C cfg)) \<and>
   \<not> irq_enabled (step cfg Interrupt s)"
  by (cases e)
     (auto simp: emitted_def tasks prims Let_def display_tmp_calls_no_irq display_int_calls_no_irq
           split: option.splits list.splits)

theorem irq_rearmed_only_by_timer_below_threshold_witness:
  "SetIrqEnabled True \<in> set (emitted (step example_config TimerCallback)
      (example_start\<lparr>read_temp := 20, irq_enabled := False\<rparr>)) \<and>
   SetIrqEnabled True \<notin> set (emitted (step example_config TimerCallback)
      (example_start\<lparr>read_temp := 30, irq_enabled := False\<rparr>)) \<and>
   SetIrqEnabled True \<notin> set (emitted (step example_config Interrupt) example_start)"
  using irq_rearmed_only_by_timer_below_threshold [of example_config TimerCallback
          "example_start\<lparr>read_temp := 20, irq_enabled := False\<rparr>"]
        irq_rearmed_only_by_timer_below_threshold [of example_config TimerCallback
          "example_start\<lparr>read_temp := 30, irq_enabled := False\<rparr>"]
        irq_rearmed_only_by_timer_below_threshold [of example_config Interrupt example_start]
  by (simp add: example_config_def)

section \<open>Alert flag and interrupt enable (C5)\<close>




section \<open>The render task's counter (C6)\<close>

lemma phase_on:
  "state (pico s) \<Longrightarrow>
   pico (phase cfg s) =
     \<lparr>pico_led_state = GPIO_LED_OFF cfg,
      count = (if 9998 < count (pico s) + 1 then 0 else count (pico s) + 1),
      state = False, then_tick = then_tick (pico s) + 500\<rparr> \<and>
   emitted (phase cfg) s =
     TaskGetTickCount # GpioPut PICO_DEFAULT_LED_PIN True #
     display_int_calls cfg (count (pico s) + 1) @
     [QueueSendToBack FlipQueue (GPIO_LED_OFF cfg) 0]"
  by (simp add: phase_def led_task_pico_def display_int_def emitted_def prims Let_def)

lemma phase_off:
  "\<not> state (pico s) \<Longrightarrow>
   pico (phase cfg s) =
     \<lparr>pico_led_state = GPIO_LED_ON cfg,
      count = (if 9998 < count (pico s) then 0 else count (pico s)),
      state = True, then_tick = then_tick (pico s) + 500\<rparr>"
  by (simp add: phase_def led_task_pico_def display_tmp_def prims Let_def)

text \<open>An on-phase and the off-phase after it advance the counter by one, below 9998.\<close>

lemma two_phases:
  assumes "state (pico s)" and "count (pico s) < 9998"
  shows "state (pico (phase cfg (phase cfg s))) \<and>
         count (pico (phase cfg (phase cfg s))) = count (pico s) + 1"
proof -
  from assms have on: "\<not> state (pico (phase cfg s))"
      "count (pico (phase cfg s)) = count (pico s) + 1"
    by (simp_all add: phase_on)
  from on assms(2) show ?thesis
    by (simp add: phase_off)
qed

lemma many_phases:
  "state (pico s) \<Longrightarrow> count (pico s) = - 1 \<Longrightarrow> n \<le> 9999 \<Longrightarrow>
   state (pico ((phase cfg ^^ (2 * n)) s)) \<and>
   count (pico ((phase cfg ^^ (2 * n)) s)) = int n - 1"
proof (induction n)
  case 0
  then show ?case by simp
next
  case (Suc n)
  then have ih: "state (pico ((phase cfg ^^ (2 * n)) s))"
      "count (pico ((phase cfg ^^ (2 * n)) s)) = int n - 1"
    by simp_all
  from Suc.prems ih(2) have lt: "count (pico ((phase cfg ^^ (2 * n)) s)) < 9998"
    by simp
  from two_phases [OF ih(1) lt, of cfg] ih(2) show ?case
    by simp
qed

text \<open>
  C6 says the displayed counter runs 0, 1, ..., 9999, 0, 1, ... The source starts
  \<open>count\<close> at -1, shows \<open>++count\<close> in each on-phase and resets \<open>count\<close> to 0 once it
  exceeds 9998. From the task's initial locals, after 9999 on-phases (19998 phases)
  \<open>count\<close> is 9998; the next on-phase shows 9999 and resets \<open>count\<close> to 0; the on-phase
  after that pre-increments again and shows 1, not 0.
\<close>

theorem counter_wraps_to_one:
  assumes "pico s = pico boot"
  shows "count (pico ((phase cfg ^^ 19998) s)) = 9998 \<and>
         state (pico ((phase cfg ^^ 19998) s)) \<and>
         emitted (phase cfg) ((phase cfg ^^ 19998) s) =
           TaskGetTickCount # GpioPut PICO_DEFAULT_LED_PIN True #
           display_int_calls cfg 9999 @ [QueueSendToBack FlipQueue (GPIO_LED_OFF cfg) 0] \<and>
         count (pico ((phase cfg ^^ 19999) s)) = 0 \<and>
         emitted (phase cfg) ((phase cfg ^^ 20000) s) =
           TaskGetTickCount # GpioPut PICO_DEFAULT_LED_PIN True #
           display_int_calls cfg 1 @ [QueueSendToBack FlipQueue (GPIO_LED_OFF cfg) 0]"
proof -
  let ?s1 = "(phase cfg ^^ 19998) s"
  from assms have init: "state (pico s)" "count (pico s) = - 1"
    by (simp_all add: boot_def)
  have s1: "state (pico ?s1)" "count (pico ?s1) = 9998"
    using many_phases [OF init, of 9999 cfg] by simp_all
  have e2: "(phase cfg ^^ 19999) s = phase cfg ?s1"
    using funpow.simps(2) [of 19998 "phase cfg"] by simp
  have e3: "(phase cfg ^^ 20000) s = phase cfg (phase cfg ?s1)"
    using funpow.simps(2) [of 19999 "phase cfg"] e2 by simp
  have s2: "\<not> state (pico (phase cfg ?s1))" "count (pico (phase cfg ?s1)) = 0"
    using s1 by (simp_all add: phase_on)
  have s3: "state (pico (phase cfg (phase cfg ?s1)))"
      "count (pico (phase cfg (phase cfg ?s1))) = 0"
    using s2 by (simp_all add: phase_off)
  show ?thesis
    using s1 s2 s3 phase_on [of ?s1 cfg] phase_on [of "phase cfg (phase cfg ?s1)" cfg]
    by (simp add: e2 e3)
qed

theorem counter_wraps_to_one_witness:
  "count (pico ((phase example_config ^^ 19998) example_start)) = 9998 \<and>
   count (pico ((phase example_config ^^ 19999) example_start)) = 0"
  using counter_wraps_to_one [of example_start example_config]
  by (simp add: example startup prims Let_def)

section \<open>Flash tokens of the render task (C7)\<close>

text \<open>
  C7: in an iteration of the render task in which 500 ticks have passed, the phase with
  the indicator on (\<open>state\<close> true: \<open>led_on\<close>, then \<open>display_int\<close> of the advanced
  counter) offers the token \<open>GPIO_LED_OFF\<close> to \<open>flip_queue\<close>, and the phase with the
  indicator off (\<open>led_off\<close>, then \<open>display_tmp\<close> of \<open>read_temp\<close>) offers
  \<open>GPIO_LED_ON\<close>; the two phases alternate. The send does not wait: the token is
  appended when the queue has room, as \<open>enqueue\<close> says.
\<close>

theorem render_token_is_inverse_of_indicator:
  "500 \<le> now - then_tick (pico s) \<Longrightarrow>
   emitted (led_task_pico cfg now) s =
     (if state (pico s)
      then TaskGetTickCount # GpioPut PICO_DEFAULT_LED_PIN True #
           display_int_calls cfg (count (pico s) + 1) @
           [QueueSendToBack FlipQueue (GPIO_LED_OFF cfg) 0]
      else TaskGetTickCount # GpioPut PICO_DEFAULT_LED_PIN False # LoadReadTemp #
           display_tmp_calls cfg (read_temp s) @
           [QueueSendToBack FlipQueue (GPIO_LED_ON cfg) 0]) \<and>
   flip_queue (led_task_pico cfg now s) =
     enqueue (if state (pico s) then GPIO_LED_OFF cfg else GPIO_LED_ON cfg) (flip_queue s) \<and>
   state (pico (led_task_pico cfg now s)) = (\<not> state (pico s))"
  by (simp add: led_task_pico_def display_int_def display_tmp_def emitted_def prims Let_def)

theorem render_token_is_inverse_of_indicator_witness:
  "items (flip_queue (led_task_pico example_config 500 example_start)) = [0] \<and>
   items (flip_queue (led_task_pico example_config 1000
            (led_task_pico example_config 500 example_start))) = [0, 1]"
  using render_token_is_inverse_of_indicator [of 500 example_start example_config]
        render_token_is_inverse_of_indicator [of 1000
           "led_task_pico example_config 500 example_start" example_config]
  by (simp add: led_task_pico_def display_int_def display_tmp_def prims Let_def example startup)

section \<open>Startup fallback (C8)\<close>

text \<open>
  C8 says the blink-then-halt fallback is taken exactly when no task could be created.
  The test in \<open>main\<close> looks at three of the four statuses only (its comment reads
  "if any of the tasks are good"): when the first three \<open>xTaskCreate\<close> calls fail
  (\<open>errCOULD_NOT_ALLOCATE_REQUIRED_MEMORY\<close>, -1) and the fourth, for the alert task,
  returns \<open>pdPASS\<close>, \<open>main\<close> does not start the scheduler; it blinks the onboard LED
  five times and goes to its idle loop.
\<close>

theorem main_ignores_alert_task_status:
  "fst (main cfg begin_ok (- 1) (- 1) (- 1) pdPASS) = IdleLoop \<and>
   TaskStartScheduler \<notin> set (trace (snd (main cfg begin_ok (- 1) (- 1) (- 1) pdPASS))) \<and>
   filter (\<lambda>c. c = GpioPut PICO_DEFAULT_LED_PIN True)
      (trace (snd (main cfg begin_ok (- 1) (- 1) (- 1) pdPASS))) =
   [GpioPut PICO_DEFAULT_LED_PIN True, GpioPut PICO_DEFAULT_LED_PIN True,
    GpioPut PICO_DEFAULT_LED_PIN True, GpioPut PICO_DEFAULT_LED_PIN True,
    GpioPut PICO_DEFAULT_LED_PIN True]"
  by (simp add: startup prims Let_def blink.simps)

theorem main_ignores_alert_task_status_witness:
  "fst (main example_config True (- 1) (- 1) (- 1) pdPASS) = IdleLoop"
  using main_ignores_alert_task_status [of example_config True]
  by simp

section \<open>Suspension of the task loops (C9)\<close>

text \<open>
  C9 says each of the four task loops suspends on every iteration. The render task does
  not: an iteration of \<open>led_task_pico\<close> reads the tick count and, every 500 ticks,
  drives the display and sends with a wait of 0 ticks; its \<open>vTaskDelay(0)\<close> is
  commented out in the source. Here are an iteration at tick 500 (the first phase) and
  one at tick 499 (nothing to do) from the start state, where both queues are empty:
  neither contains a call that gives up the processor.
\<close>

theorem render_task_never_gives_up_processor:
  "filter (gives_up_processor example_start)
     (emitted (step example_config (PicoLoop 500)) example_start) = [] \<and>
   filter (gives_up_processor example_start)
     (emitted (step example_config (PicoLoop 499)) example_start) = []"
  by (simp add: led_task_pico_def display_int_def display_int_calls_def emitted_def prims Let_def
        example startup)

text \<open>
  C9 as amended. An iteration of the mirror task, and of the alert task, suspends the
  task exactly when its queue is empty; with an item queued the receive returns at
  once, the item is taken and the iteration runs to its end without giving up the
  processor (the \<open>vTaskDelay(0)\<close> of \<open>led_task_gpio\<close> is commented out as well). Every
  iteration of the sensor-poll task ends in \<open>vTaskDelay(SENSOR_TASK_DELAY_TICKS)\<close>. No
  iteration of the render task makes a call that gives up the processor, whatever the
  state of the queues.
\<close>

theorem task_loops_suspension:
  "(list_ex (gives_up_processor s) (emitted (step cfg GpioLoop) s) \<longleftrightarrow>
      items (flip_queue s) = []) \<and>
   (list_ex (gives_up_processor s) (emitted (step cfg AlertLoop) s) \<longleftrightarrow>
      items (irq_queue s) = []) \<and>
   (items (flip_queue s) \<noteq> [] \<longrightarrow>
      items (flip_queue (step cfg GpioLoop s)) = tl (items (flip_queue s))) \<and>
   (items (irq_queue s) \<noteq> [] \<longrightarrow>
      items (irq_queue (step cfg AlertLoop s)) = tl (items (irq_queue s))) \<and>
   emitted (step cfg (SensorLoop val)) s =
     [SensorReadTemp, StoreReadTemp val, TaskDelay (SENSOR_TASK_DELAY_TICKS cfg)] \<and>
   list_ex (gives_up_processor s) (emitted (step cfg (SensorLoop val)) s) \<and>
   \<not> list_ex (gives_up_processor t) (emitted (step cfg (PicoLoop now)) s)"
  by (auto simp: list_ex_iff emitted_def tasks prims Let_def portMAX_DELAY_def
        dest: display_tmp_calls_no_yield display_int_calls_no_yield
        split: option.splits list.splits)

theorem task_loops_suspension_witness:
  "list_ex (gives_up_processor example_start)
     (emitted (step example_config GpioLoop) example_start) \<and>
   \<not> list_ex (gives_up_processor (gpio_cb example_start))
     (emitted (step example_config GpioLoop) (gpio_cb example_start)) \<and>
   items (flip_queue (step example_config GpioLoop (gpio_cb example_start))) = [] \<and>
   \<not> list_ex (gives_up_processor example_start)
     (emitted (step example_config (PicoLoop 500)) example_start)"
  using task_loops_suspension [of example_start example_config 20 example_start 500]
        task_loops_suspension [of "gpio_cb example_start" example_config 20 example_start 500]
  by (simp add: gpio_cb_def prims Let_def example startup)

section \<open>Display positions of the temperature (C10)\<close>

text \<open>The four ways an iteration of the loop of \<open>display_tmp\<close> can go.\<close>

lemma loop_dot:
  "i < length temp \<Longrightarrow> temp ! i = CHR ''.'' \<Longrightarrow> 0 < digit \<Longrightarrow>
   display_tmp_loop temp i digit pc =
     map_option (\<lambda>cs. SetAlpha pc (digit - 1) True # cs) (display_tmp_loop temp (Suc i) digit pc)"
  by (subst display_tmp_loop.simps) (simp add: Let_def)

lemma loop_glyph:
  "i < length temp \<Longrightarrow> \<not> (temp ! i = CHR ''.'' \<and> 0 < digit) \<Longrightarrow>
   display_tmp_loop temp i digit pc =
     map_option (\<lambda>cs. SetAlpha (temp ! i) digit False # cs)
       (display_tmp_loop temp (Suc i) (Suc digit) (temp ! i))"
  by (subst display_tmp_loop.simps) (auto simp: Let_def)

lemma loop_done:
  "\<not> i < length temp \<Longrightarrow> digit \<noteq> 3 \<Longrightarrow> display_tmp_loop temp i digit pc = Some []"
  by (subst display_tmp_loop.simps) simp

lemma loop_nul:
  "display_tmp_loop temp (length temp) 3 pc = Some [SetAlpha (CHR 0x00) 3 False]"
  by (subst display_tmp_loop.simps) (simp add: Let_def loop_done)

lemma loop_past:
  "length temp < i \<Longrightarrow> display_tmp_loop temp i 3 pc = None"
  by (subst display_tmp_loop.simps) simp

text \<open>
  With \<open>digit\<close> positions already taken, the loop writes at a position below
  \<open>digit\<close> plus the number of characters still to come that are not a point; the
  one write it may add at the terminating NUL is at position 3.
\<close>

lemma display_tmp_loop_upper:
  "length temp - i = n \<Longrightarrow> display_tmp_loop temp i digit pc = Some cs \<Longrightarrow> 0 < digit \<Longrightarrow>
   c \<in> set cs \<Longrightarrow> alpha_position c = Some p \<Longrightarrow>
   p \<le> 3 \<or> p < digit + length (filter (\<lambda>x. x \<noteq> CHR ''.'') (drop i temp))"
proof (induction n arbitrary: i digit pc cs)
  case 0
  then have ge: "\<not> i < length temp" by simp
  show ?case
  proof (cases "digit = 3")
    case True
    show ?thesis
    proof (cases "i = length temp")
      case True
      with \<open>digit = 3\<close> "0.prems"(2) have "cs = [SetAlpha (CHR 0x00) 3 False]"
        by (simp add: loop_nul)
      with "0.prems"(4,5) show ?thesis by auto
    next
      case False
      with ge have "length temp < i" by simp
      with \<open>digit = 3\<close> "0.prems"(2) show ?thesis
        by (simp add: loop_past)
    qed
  next
    case False
    with ge "0.prems"(2) have "cs = []" by (simp add: loop_done)
    with "0.prems"(4) show ?thesis by simp
  qed
next
  case (Suc n)
  then have lt: "i < length temp" by simp
  then have d: "drop i temp = temp ! i # drop (Suc i) temp"
    by (simp add: Cons_nth_drop_Suc)
  from Suc.prems(1) have n: "length temp - Suc i = n" by simp
  show ?case
  proof (cases "temp ! i = CHR ''.''")
    case True
    with lt Suc.prems(2,3) obtain cs' where
      cs: "cs = SetAlpha pc (digit - 1) True # cs'" and
      rec: "display_tmp_loop temp (Suc i) digit pc = Some cs'"
      by (auto simp: loop_dot)
    show ?thesis
    proof (cases "c \<in> set cs'")
      case True
      from Suc.IH [OF n rec Suc.prems(3) True Suc.prems(5)] \<open>temp ! i = CHR ''.''\<close>
      show ?thesis by (simp add: d)
    next
      case False
      with Suc.prems(4) cs have "c = SetAlpha pc (digit - 1) True" by simp
      with Suc.prems(3,5) show ?thesis by auto
    qed
  next
    case False
    with lt Suc.prems(2) obtain cs' where
      cs: "cs = SetAlpha (temp ! i) digit False # cs'" and
      rec: "display_tmp_loop temp (Suc i) (Suc digit) (temp ! i) = Some cs'"
      by (auto simp: loop_glyph)
    show ?thesis
    proof (cases "c \<in> set cs'")
      case True
      from Suc.IH [OF n rec _ True Suc.prems(5)] \<open>temp ! i \<noteq> CHR ''.''\<close>
      show ?thesis by (simp add: d)
    next
      case f: False
      with Suc.prems(4) cs have "c = SetAlpha (temp ! i) digit False" by simp
      with Suc.prems(5) False show ?thesis by (auto simp: d)
    qed
  qed
qed

text \<open>Conversely, with five or more positions needed, position 4 is written.\<close>

lemma display_tmp_loop_lower:
  "length temp - i = n \<Longrightarrow> display_tmp_loop temp i digit pc = Some cs \<Longrightarrow> 0 < digit \<Longrightarrow>
   digit \<le> 4 \<Longrightarrow>
   5 \<le> digit + length (filter (\<lambda>x. x \<noteq> CHR ''.'') (drop i temp)) \<Longrightarrow>
   \<exists>c\<in>set cs. \<exists>p. alpha_position c = Some p \<and> 4 \<le> p"
proof (induction n arbitrary: i digit pc cs)
  case 0
  then show ?case by simp
next
  case (Suc n)
  then have lt: "i < length temp" by simp
  then have d: "drop i temp = temp ! i # drop (Suc i) temp"
    by (simp add: Cons_nth_drop_Suc)
  from Suc.prems(1) have n: "length temp - Suc i = n" by simp
  show ?case
  proof (cases "temp ! i = CHR ''.''")
    case True
    with lt Suc.prems(2,3) obtain cs' where
      cs: "cs = SetAlpha pc (digit - 1) True # cs'" and
      rec: "display_tmp_loop temp (Suc i) digit pc = Some cs'"
      by (auto simp: loop_dot)
    from Suc.prems(5) True have "5 \<le> digit + length (filter (\<lambda>x. x \<noteq> CHR ''.'') (drop (Suc i) temp))"
      by (simp add: d)
    from Suc.IH [OF n rec Suc.prems(3,4) this] show ?thesis
      by (auto simp: cs)
  next
    case False
    with lt Suc.prems(2) obtain cs' where
      cs: "cs = SetAlpha (temp ! i) digit False # cs'" and
      rec: "display_tmp_loop temp (Suc i) (Suc digit) (temp ! i) = Some cs'"
      by (auto simp: loop_glyph)
    show ?thesis
    proof (cases "digit = 4")
      case True
      then show ?thesis by (simp add: cs)
    next
      case f: False
      with Suc.prems(4) have le: "Suc digit \<le> 4" by simp
      from Suc.prems(5) False
      have "5 \<le> Suc digit + length (filter (\<lambda>x. x \<noteq> CHR ''.'') (drop (Suc i) temp))"
        by (simp add: d)
      from Suc.IH [OF n rec _ le this] show ?thesis
        by (auto simp: cs)
    qed
  qed
qed

lemma display_tmp_glyphs_positions:
  assumes "display_tmp_glyphs temp = Some cs"
  shows "(\<forall>c\<in>set cs. \<forall>p. alpha_position c = Some p \<longrightarrow> p \<le> 3) \<longleftrightarrow>
         length (glyph_chars temp) \<le> 4"
proof (cases temp)
  case Nil
  with assms show ?thesis
    by (auto simp: display_tmp_glyphs_def glyph_chars_def loop_done)
next
  case (Cons ch rest)
  have "display_tmp_loop temp 1 1 ch \<noteq> None"
    using Cons by (intro display_tmp_loop_defined) simp
  then obtain cs' where rec: "display_tmp_loop temp (Suc 0) (Suc 0) ch = Some cs'"
    by auto
  have start: "display_tmp_loop temp 0 0 (CHR 0x00) = Some (SetAlpha ch 0 False # cs')"
    using Cons rec loop_glyph [of 0 temp 0 "CHR 0x00"] by simp
  with assms have cs: "cs = SetAlpha ch 0 False # cs' @ [SetAlpha CHR ''c'' 3 False, DisplayDraw]"
    by (simp add: display_tmp_glyphs_def)
  have len: "length (glyph_chars temp) = Suc 0 + length (filter (\<lambda>x. x \<noteq> CHR ''.'') (drop (Suc 0) temp))"
    using Cons by (simp add: glyph_chars_def)
  show ?thesis
  proof (cases "length (glyph_chars temp) \<le> 4")
    case True
    have "p \<le> 3" if "c \<in> set cs'" "alpha_position c = Some p" for c p
      using display_tmp_loop_upper [OF refl rec _ that] True len by auto
    with True show ?thesis
      by (auto simp: cs)
  next
    case False
    then have "5 \<le> Suc 0 + length (filter (\<lambda>x. x \<noteq> CHR ''.'') (drop (Suc 0) temp))"
      using len by simp
    from display_tmp_loop_lower [OF refl rec _ _ this]
    obtain c p where far: "c \<in> set cs'" "alpha_position c = Some p" "4 \<le> p"
      by auto
    from far(1) have "c \<in> set cs" by (simp add: cs)
    moreover from far(3) have "\<not> p \<le> 3" by simp
    ultimately have "\<not> (\<forall>c\<in>set cs. \<forall>p. alpha_position c = Some p \<longrightarrow> p \<le> 3)"
      using far(2) by blast
    with False show ?thesis by simp
  qed
qed

lemma display_tmp_glyphs_defined: "\<exists>cs. display_tmp_glyphs temp = Some cs"
  using display_tmp_loop_defined [of 0 temp 0 "CHR 0x00"]
  by (auto simp: display_tmp_glyphs_def)

lemma emitted_display_tmp:
  "display_tmp_glyphs (format_fixed2 cfg val) = Some cs \<Longrightarrow> emitted (display_tmp cfg val) s = cs"
  by (simp add: emitted_def display_tmp_def display_tmp_calls_def emit_def)

lemmas formatting = example_format_def round_half_even_def Let_def fixed2_def decimal.simps
  digit_char_def

lemma example_texts:
  "format_fixed2 example_config 100 = ''100.00''"
  "format_fixed2 example_config (- 10) = ''-10.00''"
  "format_fixed2 example_config 20 = ''20.00''"
  by (simp_all add: example_config_def formatting)

text \<open>
  C10 says that for every value \<open>display_tmp\<close> writes glyphs at positions 0 to 3 only,
  naming 100.00 and -10.00. The loop's condition, \<open>i < temp.length() || digit == 3\<close>,
  mentions the last position but does not stop the loop there, and nothing else bounds
  \<open>digit\<close>: for the text 100.00 the loop calls \<open>set_alpha\<close> with positions 0, 1, 2,
  2 (the dot), 3, 4, and for -10.00 with 0, 1, 2, 2 (the dot), 3, 4. The function's
  comment speaks of a three-digit temperature on the 4-digit display, and
  \<open>display_int\<close> beside it clamps its argument to four digits.
\<close>

theorem display_tmp_writes_position_4:
  "SetAlpha CHR ''0'' 4 False \<in> set (emitted (display_tmp example_config 100) example_start) \<and>
   SetAlpha CHR ''0'' 4 False \<in> set (emitted (display_tmp example_config (- 10)) example_start)"
  by (simp add: emitted_def display_tmp_def display_tmp_calls_def emit_def example_texts
        display_tmp_glyphs_def display_tmp_loop.simps Let_def)

text \<open>
  The extent of the defect: \<open>display_tmp\<close> calls \<open>set_alpha\<close> only with positions 0 to
  3 exactly when the formatted text has at most four characters that take a position
  (its first character and every later character that is not a point): for
  two-decimal text, the values shown as -9.99 to 99.99. For every wider text some call
  has a position of 4 or more.
\<close>

theorem display_tmp_positions:
  "(\<forall>c\<in>set (emitted (display_tmp cfg val) s). \<forall>p. alpha_position c = Some p \<longrightarrow> p \<le> 3) \<longleftrightarrow>
   length (glyph_chars (format_fixed2 cfg val)) \<le> 4"
proof -
  obtain cs where cs: "display_tmp_glyphs (format_fixed2 cfg val) = Some cs"
    using display_tmp_glyphs_defined by blast
  show ?thesis
    using display_tmp_glyphs_positions [OF cs] by (simp add: emitted_display_tmp [OF cs])
qed

theorem display_tmp_positions_witness:
  "length (glyph_chars (format_fixed2 example_config 20)) \<le> 4 \<and>
   map alpha_position (emitted (display_tmp example_config 20) example_start) =
     [Some 0, Some 1, Some 1, Some 2, Some 3, Some 3, None] \<and>
   \<not> length (glyph_chars (format_fixed2 example_config 100)) \<le> 4"
  using display_tmp_positions [of example_config "20" example_start]
  by (simp add: emitted_def display_tmp_def display_tmp_calls_def emit_def example_texts
        display_tmp_glyphs_def display_tmp_loop.simps glyph_chars_def Let_def)

end
